theory Spec2Isabelle
  imports Complex_Main
begin

section \<open>Ballistic simulation: the dynamics engine of \<open>BallisticSimulator\<close>\<close>

text \<open>
  The engine works on double-precision numbers. They are idealised here as the reals:
  every arithmetic operation is exact, so rounding, overflow to infinity and NaN are not
  part of the model. What is proved below is proved of this exact arithmetic; bounds on
  the rounding error of the double-precision run are outside the model.

  The arrays of the program have fixed shapes: vectors of length 2 and 4, matrices of
  shape \<open>2 \<times> 2\<close> and \<open>4 \<times> 4\<close>. They are modelled as tuples of that shape (a matrix
  is the tuple of its rows); a trajectory, whose first dimension depends on the step
  count, is a list of positions.
\<close>

subsection \<open>Data\<close>

type_synonym vec2 = "real \<times> real"
type_synonym vec4 = "real \<times> real \<times> real \<times> real"
type_synonym mat2 = "vec2 \<times> vec2"
type_synonym mat4 = "vec4 \<times> vec4 \<times> vec4 \<times> vec4"

text \<open>
  The parameter dictionary, with the keys that \<open>get_params\<close> builds (and the label that
  \<open>add_trajectory\<close> adds). The step count is a Python integer.
\<close>

record params =
  p0 :: vec2
  v0 :: vec2
  w :: vec2
  eta :: real
  m :: real
  T :: int
  h :: real
  g :: vec2
  label :: "string option"

text \<open>
  The exceptions that the engine's code can raise. \<open>ValueError\<close> carries its message:
  numpy's refusal of a negative dimension, and the message of \<open>calculate_optimal_v0\<close>
  (written in Chinese in the source; its meaning is "cannot solve, the target position
  is unreachable or the parameters are incompatible").
\<close>

datatype error =
  ZeroDivisionError
| ValueError string
| IndexError
| TypeError
| LinAlgError

definition negative_dimensions :: string where
  "negative_dimensions = ''negative dimensions are not allowed''"

definition target_unreachable :: string where
  "target_unreachable = ''cannot solve: target unreachable or parameters incompatible''"

subsection \<open>The array operations used by the engine\<close>

definition eye2 :: mat2 where
  "eye2 = ((1, 0), (0, 1))"

definition zeros2 :: vec2 where
  "zeros2 = (0, 0)"

definition zeros22 :: mat2 where
  "zeros22 = ((0, 0), (0, 0))"

definition zeros4 :: vec4 where
  "zeros4 = (0, 0, 0, 0)"

definition eye4 :: mat4 where
  "eye4 = ((1, 0, 0, 0), (0, 1, 0, 0), (0, 0, 1, 0), (0, 0, 0, 1))"

fun vadd2 :: "vec2 \<Rightarrow> vec2 \<Rightarrow> vec2" where
  "vadd2 (a0, a1) (b0, b1) = (a0 + b0, a1 + b1)"

fun vsub2 :: "vec2 \<Rightarrow> vec2 \<Rightarrow> vec2" where
  "vsub2 (a0, a1) (b0, b1) = (a0 - b0, a1 - b1)"

fun svmul2 :: "real \<Rightarrow> vec2 \<Rightarrow> vec2" where
  "svmul2 c (a0, a1) = (c * a0, c * a1)"

fun smul2 :: "real \<Rightarrow> mat2 \<Rightarrow> mat2" where
  "smul2 c (r0, r1) = (svmul2 c r0, svmul2 c r1)"

fun dot2 :: "vec2 \<Rightarrow> vec2 \<Rightarrow> real" where
  "dot2 (a0, a1) (b0, b1) = a0 * b0 + a1 * b1"

fun matvec2 :: "mat2 \<Rightarrow> vec2 \<Rightarrow> vec2" where
  "matvec2 (r0, r1) x = (dot2 r0 x, dot2 r1 x)"

fun vadd4 :: "vec4 \<Rightarrow> vec4 \<Rightarrow> vec4" where
  "vadd4 (a0, a1, a2, a3) (b0, b1, b2, b3) = (a0 + b0, a1 + b1, a2 + b2, a3 + b3)"

fun dot4 :: "vec4 \<Rightarrow> vec4 \<Rightarrow> real" where
  "dot4 (a0, a1, a2, a3) (b0, b1, b2, b3) = a0 * b0 + a1 * b1 + a2 * b2 + a3 * b3"

fun matvec4 :: "mat4 \<Rightarrow> vec4 \<Rightarrow> vec4" where
  "matvec4 (r0, r1, r2, r3) x = (dot4 r0 x, dot4 r1 x, dot4 r2 x, dot4 r3 x)"

fun col4 :: "mat4 \<Rightarrow> nat \<Rightarrow> vec4" where
  "col4 ((a00, a01, a02, a03), (a10, a11, a12, a13),
         (a20, a21, a22, a23), (a30, a31, a32, a33)) k =
     (if k = 0 then (a00, a10, a20, a30)
      else if k = 1 then (a01, a11, a21, a31)
      else if k = 2 then (a02, a12, a22, a32)
      else (a03, a13, a23, a33))"

definition vecmat4 :: "vec4 \<Rightarrow> mat4 \<Rightarrow> vec4" where
  "vecmat4 r B = (dot4 r (col4 B 0), dot4 r (col4 B 1), dot4 r (col4 B 2), dot4 r (col4 B 3))"

fun matmul4 :: "mat4 \<Rightarrow> mat4 \<Rightarrow> mat4" where
  "matmul4 (r0, r1, r2, r3) B = (vecmat4 r0 B, vecmat4 r1 B, vecmat4 r2 B, vecmat4 r3 B)"

text \<open>\<open>np.block([[M11, M12], [M21, M22]])\<close> and \<open>np.concatenate([u, v])\<close>.\<close>

fun block :: "mat2 \<Rightarrow> mat2 \<Rightarrow> mat2 \<Rightarrow> mat2 \<Rightarrow> mat4" where
  "block ((a00, a01), (a10, a11)) ((b00, b01), (b10, b11))
         ((c00, c01), (c10, c11)) ((d00, d01), (d10, d11)) =
     ((a00, a01, b00, b01), (a10, a11, b10, b11),
      (c00, c01, d00, d01), (c10, c11, d10, d11))"

fun concatenate :: "vec2 \<Rightarrow> vec2 \<Rightarrow> vec4" where
  "concatenate (a0, a1) (b0, b1) = (a0, a1, b0, b1)"

text \<open>The slices \<open>x[:2]\<close>, \<open>x[2:]\<close>, \<open>F[:2, :2]\<close> and \<open>F[:2, 2:]\<close>.\<close>

fun take2 :: "vec4 \<Rightarrow> vec2" where
  "take2 (a0, a1, a2, a3) = (a0, a1)"

fun drop2 :: "vec4 \<Rightarrow> vec2" where
  "drop2 (a0, a1, a2, a3) = (a2, a3)"

fun top_left :: "mat4 \<Rightarrow> mat2" where
  "top_left (r0, r1, r2, r3) = (take2 r0, take2 r1)"

fun top_right :: "mat4 \<Rightarrow> mat2" where
  "top_right (r0, r1, r2, r3) = (drop2 r0, drop2 r1)"

text \<open>
  \<open>np.linalg.matrix_power\<close> for a non-negative exponent: the identity for 0, then the
  product of that many copies of the matrix. (numpy multiplies by binary decomposition of
  the exponent for exponents above 3; in exact arithmetic the product is the same.)
\<close>

primrec matrix_power :: "mat4 \<Rightarrow> nat \<Rightarrow> mat4" where
  "matrix_power A 0 = eye4"
| "matrix_power A (Suc n) = matmul4 (matrix_power A n) A"

text \<open>
  Determinants. \<open>np.linalg.inv\<close> raises \<open>LinAlgError\<close> when the factorisation meets a
  zero pivot, that is, in exact arithmetic, when the determinant is 0; otherwise it
  returns the inverse.
\<close>

fun det2 :: "mat2 \<Rightarrow> real" where
  "det2 ((a, b), (c, d)) = a * d - b * c"

fun det3 :: "(real \<times> real \<times> real) \<times> (real \<times> real \<times> real) \<times> (real \<times> real \<times> real) \<Rightarrow> real" where
  "det3 ((a, b, c), (d, e, f), (g', h', i)) =
     a * det2 ((e, f), (h', i)) - b * det2 ((d, f), (g', i)) + c * det2 ((d, e), (g', h'))"

fun det4 :: "mat4 \<Rightarrow> real" where
  "det4 ((a00, a01, a02, a03), (a10, a11, a12, a13),
         (a20, a21, a22, a23), (a30, a31, a32, a33)) =
       a00 * det3 ((a11, a12, a13), (a21, a22, a23), (a31, a32, a33))
     - a01 * det3 ((a10, a12, a13), (a20, a22, a23), (a30, a32, a33))
     + a02 * det3 ((a10, a11, a13), (a20, a21, a23), (a30, a31, a33))
     - a03 * det3 ((a10, a11, a12), (a20, a21, a22), (a30, a31, a32))"

fun inv2 :: "mat2 \<Rightarrow> error + mat2" where
  "inv2 ((a, b), (c, d)) =
     (if det2 ((a, b), (c, d)) = 0 then Inl LinAlgError
      else Inr ((d / det2 ((a, b), (c, d)), - b / det2 ((a, b), (c, d))),
                (- c / det2 ((a, b), (c, d)), a / det2 ((a, b), (c, d)))))"

subsection \<open>\<open>compute_dynamics\<close>\<close>

text \<open>
  The parameters are Python floats, so the division by a zero mass raises
  \<open>ZeroDivisionError\<close>.
\<close>

definition compute_dynamics :: "params \<Rightarrow> error + (mat4 \<times> vec4)" where
  "compute_dynamics ps =
     (let h = h ps; m = m ps; eta = eta ps; w = w ps; g = g ps;
          I = eye2;
          hI = smul2 h I
      in if m = 0 then Inl ZeroDivisionError
         else
           let drag_factor = 1 - (h * eta) / m;
               A = block I hI zeros22 (smul2 drag_factor I);
               b = concatenate zeros2 (svmul2 h (vadd2 g (svmul2 (eta / m) w)))
           in Inr (A, b))"

subsection \<open>\<open>simulate\<close>\<close>

text \<open>
  The loop \<open>for t in range(1, T + 1): x = A @ x + b; trajectory[t] = x[:2]\<close>, over the
  list of its indices. A write outside the array raises \<open>IndexError\<close>.
\<close>

fun sim_loop :: "mat4 \<Rightarrow> vec4 \<Rightarrow> nat list \<Rightarrow> vec4 \<times> vec2 list \<Rightarrow> error + (vec4 \<times> vec2 list)" where
  "sim_loop A b [] (x, trajectory) = Inr (x, trajectory)"
| "sim_loop A b (t # ts) (x, trajectory) =
     (let x' = vadd4 (matvec4 A x) b
      in if t < length trajectory
         then sim_loop A b ts (x', trajectory[t := take2 x'])
         else Inl IndexError)"

text \<open>
  \<open>np.zeros((T + 1, 2))\<close> raises \<open>ValueError\<close> for a negative first dimension, and
  \<open>trajectory[0] = p0\<close> raises \<open>IndexError\<close> on an array with no row.
  \<open>sim_state\<close> is \<open>simulate\<close> returning the loop variable \<open>x\<close> beside the trajectory;
  \<open>simulate\<close> returns the trajectory alone.
\<close>

definition sim_state :: "params \<Rightarrow> error + (vec4 \<times> vec2 list)" where
  "sim_state ps =
     (case compute_dynamics ps of
        Inl e \<Rightarrow> Inl e
      | Inr (A, b) \<Rightarrow>
          let x = concatenate (p0 ps) (v0 ps)
          in if T ps + 1 < 0 then Inl (ValueError negative_dimensions)
             else
               let trajectory = replicate (nat (T ps + 1)) zeros2
               in if length trajectory = 0 then Inl IndexError
                  else sim_loop A b [1 ..< nat (T ps + 1)] (x, trajectory[0 := p0 ps]))"

definition simulate :: "params \<Rightarrow> error + vec2 list" where
  "simulate ps = (case sim_state ps of Inl e \<Rightarrow> Inl e | Inr (x, trajectory) \<Rightarrow> Inr trajectory)"

subsection \<open>\<open>calculate_optimal_v0\<close>\<close>

text \<open>
  \<open>j = sum(matrix_power(A, k) @ b for k in range(T))\<close>: Python's \<open>sum\<close> starts from the
  integer 0 and adds the terms from left to right; adding an array to 0 gives the array.
  With no term the result is the integer 0 itself, and the slice \<open>j[:2]\<close> then raises
  \<open>TypeError\<close>: that case is decided in \<open>calculate_optimal_v0\<close>.
\<close>

definition forcing_sum :: "mat4 \<Rightarrow> vec4 \<Rightarrow> nat \<Rightarrow> vec4" where
  "forcing_sum A b n = foldl vadd4 zeros4 (map (\<lambda>k. matvec4 (matrix_power A k) b) [0 ..< n])"

text \<open>
  For a negative exponent \<open>matrix_power\<close> first inverts the matrix, which raises
  \<open>LinAlgError\<close> (outside the \<open>try\<close>) when it is singular. Only the inversion of \<open>C\<close> is
  inside the \<open>try\<close>, whose handler turns \<open>LinAlgError\<close> into the \<open>ValueError\<close>.
\<close>

definition calculate_optimal_v0 :: "params \<Rightarrow> vec2 \<Rightarrow> error + vec2" where
  "calculate_optimal_v0 ps target =
     (case compute_dynamics ps of
        Inl e \<Rightarrow> Inl e
      | Inr (A, b) \<Rightarrow>
          let T = T ps
          in if T < 0 \<and> det4 A = 0 then Inl LinAlgError
             else if T \<le> 0 then Inl TypeError
             else
               let F = matrix_power A (nat T);
                   j = forcing_sum A b (nat T);
                   C = top_right F;
                   d = vadd2 (matvec2 (top_left F) (p0 ps)) (take2 j)
               in (case inv2 C of
                     Inl e \<Rightarrow> Inl (ValueError target_unreachable)
                   | Inr Ci \<Rightarrow> Inr (matvec2 Ci (vsub2 target d))))"

subsection \<open>The registry: \<open>add_simulation\<close> and \<open>clear_simulations\<close>\<close>

text \<open>
  The simulator object holds the list \<open>simulations\<close> and the colour cycle read from the
  plotting library. The two methods mutate the list in place; here they return the
  updated object.
\<close>

record simulator =
  simulations :: "params list"
  color_cycle :: "string list"

definition init :: "string list \<Rightarrow> simulator" where
  "init colors = \<lparr>simulations = [], color_cycle = colors\<rparr>"

definition add_simulation :: "simulator \<Rightarrow> params \<Rightarrow> simulator" where
  "add_simulation self ps = self\<lparr>simulations := simulations self @ [ps]\<rparr>"

definition clear_simulations :: "simulator \<Rightarrow> simulator" where
  "clear_simulations self = self\<lparr>simulations := []\<rparr>"

subsection \<open>Validity of a parameter record\<close>

definition valid :: "params \<Rightarrow> bool" where
  "valid ps \<longleftrightarrow> m ps > 0 \<and> h ps > 0 \<and> T ps \<ge> 1 \<and> eta ps \<ge> 0"

subsection \<open>Notions used to state the properties\<close>

text \<open>One application of the recurrence \<open>x \<mapsto> A @ x + b\<close>, the body of the loop.\<close>

definition step :: "mat4 \<Rightarrow> vec4 \<Rightarrow> vec4 \<Rightarrow> vec4" where
  "step A b x = vadd4 (matvec4 A x) b"

subsection \<open>Example inputs\<close>

text \<open>
  The scenario of the specification: no drag, no wind, ten steps of a tenth of a second.
\<close>

definition drag_free :: params where
  "drag_free = \<lparr>p0 = (0, 0), v0 = (0, 0), w = (0, 0), eta = 0, m = 1, T = 10,
                 h = 1 / 10, g = (0, - (98 / 10)), label = None\<rparr>"

text \<open>A record whose drag factor is \<open>1 - 1 * 3 / 1 = - 2\<close>, outside \<open>[-1, 1]\<close>.\<close>

definition unstable :: params where
  "unstable = \<lparr>p0 = (3, 4), v0 = (1, 0), w = (0, 0), eta = 3, m = 1, T = 3,
                h = 1, g = (0, 0), label = None\<rparr>"


definition singular :: params where
  "singular = \<lparr>p0 = (0, 0), v0 = (0, 0), w = (0, 0), eta = 1, m = 1 / 2,
                T = 2, h = 1, g = (0, - (98 / 10)), label = None\<rparr>"

subsection \<open>The solver in an arbitrary arithmetic\<close>

































section \<open>Linear algebra of the fixed-shape arrays\<close>

lemma vadd4_assoc: "vadd4 (vadd4 x y) z = vadd4 x (vadd4 y z)"
  by (cases x, cases y, cases z) simp

lemma vadd4_commute: "vadd4 x y = vadd4 y x"
  by (cases x, cases y) simp

lemma vadd4_zeros4: "vadd4 zeros4 x = x"
  by (cases x) (simp add: zeros4_def)

lemma matvec4_eye4: "matvec4 eye4 x = x"
  by (cases x) (simp add: eye4_def)

lemma dot4_add: "dot4 r (vadd4 x y) = dot4 r x + dot4 r y"
  by (cases r, cases x, cases y) (simp add: algebra_simps)

lemma matvec4_add: "matvec4 A (vadd4 x y) = vadd4 (matvec4 A x) (matvec4 A y)"
  by (cases A) (simp add: dot4_add)

lemma dot4_vecmat4: "dot4 (vecmat4 r B) x = dot4 r (matvec4 B x)"
proof -
  obtain r0 r1 r2 r3 where r: "r = (r0, r1, r2, r3)" by (cases r)
  obtain x0 x1 x2 x3 where x: "x = (x0, x1, x2, x3)" by (cases x)
  obtain b00 b01 b02 b03 b10 b11 b12 b13 b20 b21 b22 b23 b30 b31 b32 b33
    where B: "B = ((b00, b01, b02, b03), (b10, b11, b12, b13),
                   (b20, b21, b22, b23), (b30, b31, b32, b33))"
    by (metis prod_cases4)
  show ?thesis
    unfolding r x B by (simp add: vecmat4_def algebra_simps)
qed

lemma matvec4_matmul4: "matvec4 (matmul4 A B) x = matvec4 A (matvec4 B x)"
  by (cases A) (simp add: dot4_vecmat4)

lemma forcing_sum_0: "forcing_sum A b 0 = zeros4"
  by (simp add: forcing_sum_def)

lemma forcing_sum_Suc:
  "forcing_sum A b (Suc n) = vadd4 (forcing_sum A b n) (matvec4 (matrix_power A n) b)"
  by (simp add: forcing_sum_def)

lemma step_funpow:
  "(step A b ^^ n) x = vadd4 (matvec4 (matrix_power A n) x) (forcing_sum A b n)"
proof (induction n arbitrary: x)
  case 0
  show ?case by (simp add: forcing_sum_0 matvec4_eye4 vadd4_commute [of _ zeros4] vadd4_zeros4)
next
  case (Suc n)
  have "(step A b ^^ Suc n) x = (step A b ^^ n) (step A b x)"
    by (simp add: funpow_swap1)
  also have "\<dots> = vadd4 (matvec4 (matrix_power A n) (step A b x)) (forcing_sum A b n)"
    by (rule Suc.IH)
  also have "\<dots> = vadd4 (matvec4 (matrix_power A (Suc n)) x) (forcing_sum A b (Suc n))"
    by (simp add: step_def matvec4_add matvec4_matmul4 forcing_sum_Suc vadd4_assoc
        vadd4_commute [of "matvec4 (matrix_power A n) b"])
  finally show ?case .
qed

lemma sim_loop_upt:
  "j \<le> length tr \<Longrightarrow>
   \<exists>tr'. sim_loop A b [i ..< j] (x, tr) = Inr ((step A b ^^ (j - i)) x, tr')
     \<and> length tr' = length tr
     \<and> (\<forall>k. k < i \<or> j \<le> k \<longrightarrow> tr' ! k = tr ! k)
     \<and> (\<forall>k. i \<le> k \<and> k < j \<longrightarrow> tr' ! k = take2 ((step A b ^^ (k - i + 1)) x))"
proof (induction "j - i" arbitrary: i x tr)
  case 0
  then have "[i ..< j] = []" and "j \<le> i" by simp_all
  then show ?case by auto
next
  case (Suc n)
  then have ij: "i < j" and n: "n = j - Suc i" by simp_all
  let ?x = "step A b x"
  let ?tr = "tr[i := take2 ?x]"
  have len: "j \<le> length ?tr" using Suc.prems by simp
  from Suc.hyps(1) [OF n len, of ?x] obtain tr' where
    run: "sim_loop A b [Suc i ..< j] (?x, ?tr) = Inr ((step A b ^^ (j - Suc i)) ?x, tr')"
    and l: "length tr' = length ?tr"
    and out: "\<forall>k. k < Suc i \<or> j \<le> k \<longrightarrow> tr' ! k = ?tr ! k"
    and inn: "\<forall>k. Suc i \<le> k \<and> k < j \<longrightarrow> tr' ! k = take2 ((step A b ^^ (k - Suc i + 1)) ?x)"
    by blast
  have i_len: "i < length tr" using ij Suc.prems by simp
  have "sim_loop A b [i ..< j] (x, tr) = sim_loop A b [Suc i ..< j] (?x, ?tr)"
    using ij i_len by (simp add: upt_conv_Cons step_def Let_def)
  also note run
  also have "(step A b ^^ (j - Suc i)) ?x = (step A b ^^ (j - i)) x"
    using ij by (metis Suc_diff_Suc funpow_swap1 funpow.simps(2) o_apply)
  finally have 1: "sim_loop A b [i ..< j] (x, tr) = Inr ((step A b ^^ (j - i)) x, tr')" .
  have 2: "length tr' = length tr" using l by simp
  have 3: "tr' ! k = tr ! k" if "k < i \<or> j \<le> k" for k
    using that out ij by (auto simp: nth_list_update)
  have 4: "tr' ! k = take2 ((step A b ^^ (k - i + 1)) x)" if "i \<le> k \<and> k < j" for k
  proof (cases "k = i")
    case True
    then have "tr' ! k = ?tr ! i" using out by simp
    then show ?thesis using True i_len by simp
  next
    case False
    then have k: "Suc i \<le> k \<and> k < j" using that by simp
    then have "tr' ! k = take2 ((step A b ^^ (k - Suc i + 1)) ?x)" using inn by blast
    also have "(step A b ^^ (k - Suc i + 1)) ?x = (step A b ^^ (k - i + 1)) x"
      using k by (metis Suc_diff_le Suc_eq_plus1 diff_Suc_Suc funpow_swap1 funpow.simps(2) o_apply)
    finally show ?thesis .
  qed
  from 1 2 3 4 show ?case by blast
qed

section \<open>What the functions compute\<close>

lemma take2_concatenate: "take2 (concatenate a c) = a"
  by (cases a, cases c) simp

lemma compute_dynamics_closed:
  "m ps \<noteq> 0 \<Longrightarrow>
   compute_dynamics ps =
     Inr (((1, 0, h ps, 0), (0, 1, 0, h ps),
           (0, 0, 1 - h ps * eta ps / m ps, 0), (0, 0, 0, 1 - h ps * eta ps / m ps)),
          (0, 0, h ps * (fst (g ps) + eta ps / m ps * fst (w ps)),
                 h ps * (snd (g ps) + eta ps / m ps * snd (w ps))))"
  by (cases "g ps", cases "w ps")
     (simp add: compute_dynamics_def Let_def eye2_def zeros2_def zeros22_def)

lemma compute_dynamics_Inr:
  "m ps \<noteq> 0 \<Longrightarrow> \<exists>A b. compute_dynamics ps = Inr (A, b)"
  using compute_dynamics_closed by blast

lemma compute_dynamics_v0: "compute_dynamics (ps\<lparr>v0 := v\<rparr>) = compute_dynamics ps"
  by (simp add: compute_dynamics_def)

lemma compute_dynamics_T: "compute_dynamics (ps\<lparr>T := n\<rparr>) = compute_dynamics ps"
  by (simp add: compute_dynamics_def)

lemma sim_state_run:
  assumes dyn: "compute_dynamics ps = Inr (A, b)" and T0: "0 \<le> T ps"
  shows "\<exists>tr. sim_state ps = Inr ((step A b ^^ nat (T ps)) (concatenate (p0 ps) (v0 ps)), tr)
           \<and> length tr = nat (T ps) + 1
           \<and> (\<forall>k \<le> nat (T ps). tr ! k = take2 ((step A b ^^ k) (concatenate (p0 ps) (v0 ps))))"
proof -
  let ?n = "nat (T ps)"
  let ?x = "concatenate (p0 ps) (v0 ps)"
  let ?tr0 = "(replicate (Suc ?n) zeros2)[0 := p0 ps]"
  have n1: "nat (T ps + 1) = Suc ?n" using T0 by simp
  have "Suc ?n \<le> length ?tr0" by simp
  from sim_loop_upt [OF this, of A b 1 ?x] obtain tr where
    run: "sim_loop A b [1 ..< Suc ?n] (?x, ?tr0) = Inr ((step A b ^^ (Suc ?n - 1)) ?x, tr)"
    and len: "length tr = length ?tr0"
    and out: "\<forall>k. k < 1 \<or> Suc ?n \<le> k \<longrightarrow> tr ! k = ?tr0 ! k"
    and inn: "\<forall>k. 1 \<le> k \<and> k < Suc ?n \<longrightarrow> tr ! k = take2 ((step A b ^^ (k - 1 + 1)) ?x)"
    by blast
  have 1: "sim_state ps = Inr ((step A b ^^ ?n) ?x, tr)"
    using run T0 by (simp add: sim_state_def dyn n1)
  have 2: "length tr = ?n + 1" using len by simp
  have 3: "tr ! k = take2 ((step A b ^^ k) ?x)" if "k \<le> ?n" for k
  proof (cases "k = 0")
    case True
    then have "tr ! k = ?tr0 ! 0" using out by simp
    then show ?thesis using True by (simp add: take2_concatenate)
  next
    case False
    then show ?thesis using inn that by simp
  qed
  from 1 2 3 show ?thesis by blast
qed

lemma simulate_run:
  assumes dyn: "compute_dynamics ps = Inr (A, b)" and T0: "0 \<le> T ps"
  shows "simulate ps =
           Inr (map (\<lambda>k. take2 ((step A b ^^ k) (concatenate (p0 ps) (v0 ps)))) [0 ..< nat (T ps) + 1])"
proof -
  from sim_state_run [OF dyn T0] obtain tr where
    run: "sim_state ps = Inr ((step A b ^^ nat (T ps)) (concatenate (p0 ps) (v0 ps)), tr)"
    and len: "length tr = nat (T ps) + 1"
    and nth: "\<forall>k \<le> nat (T ps). tr ! k = take2 ((step A b ^^ k) (concatenate (p0 ps) (v0 ps)))"
    by blast
  have "tr = map (\<lambda>k. take2 ((step A b ^^ k) (concatenate (p0 ps) (v0 ps)))) [0 ..< nat (T ps) + 1]"
    using len nth by (intro nth_equalityI) (simp_all add: less_Suc_eq_le del: upt_Suc)
  then show ?thesis using run by (simp add: simulate_def)
qed


lemma concatenate_take2_drop2: "concatenate (take2 x) (drop2 x) = x"
  by (cases x) simp

lemma take2_vadd4: "take2 (vadd4 x y) = vadd2 (take2 x) (take2 y)"
  by (cases x, cases y) simp

lemma take2_matvec4:
  "take2 (matvec4 F (concatenate p v)) =
     vadd2 (matvec2 (top_left F) p) (matvec2 (top_right F) v)"
proof -
  obtain r0 r1 r2 r3 where F: "F = (r0, r1, r2, r3)" by (cases F)
  show ?thesis
    unfolding F by (cases r0, cases r1, cases p, cases v) (simp add: algebra_simps)
qed

lemma inv2_Inl: "inv2 C = Inl e \<longleftrightarrow> det2 C = 0 \<and> e = LinAlgError"
proof -
  obtain a c d f where C: "C = ((a, c), (d, f))" by (metis surj_pair)
  show ?thesis unfolding C by auto
qed

lemma inv2_Inr: "det2 C \<noteq> 0 \<Longrightarrow> \<exists>Ci. inv2 C = Inr Ci"
proof -
  obtain a c d f where C: "C = ((a, c), (d, f))" by (metis surj_pair)
  show "det2 C \<noteq> 0 \<Longrightarrow> \<exists>Ci. inv2 C = Inr Ci" unfolding C by simp
qed

lemma inv2_matvec2:
  assumes "inv2 C = Inr Ci"
  shows "matvec2 C (matvec2 Ci y) = y"
proof -
  obtain a c d f where C: "C = ((a, c), (d, f))" by (metis surj_pair)
  obtain y0 y1 where y: "y = (y0, y1)" by (cases y)
  define D where "D = a * f - c * d"
  from assms have D: "D \<noteq> 0" and Ci: "Ci = ((f / D, - c / D), (- d / D, a / D))"
    unfolding C D_def by (auto split: if_splits)
  have "a * (f / D * y0 + - c / D * y1) + c * (- d / D * y0 + a / D * y1)
          = (a * f - c * d) * y0 / D"
    using D by (simp add: field_simps)
  then have 1: "a * (f / D * y0 + - c / D * y1) + c * (- d / D * y0 + a / D * y1) = y0"
    using D by (simp add: D_def [symmetric])
  have "d * (f / D * y0 + - c / D * y1) + f * (- d / D * y0 + a / D * y1)
          = (a * f - c * d) * y1 / D"
    using D by (simp add: field_simps)
  then have 2: "d * (f / D * y0 + - c / D * y1) + f * (- d / D * y0 + a / D * y1) = y1"
    using D by (simp add: D_def [symmetric])
  show ?thesis unfolding C Ci y using 1 2 by simp
qed

lemma vadd2_vsub2_cancel: "vadd2 (vadd2 p (vsub2 t (vadd2 p q))) q = t"
  by (cases p, cases q, cases t) simp

lemma geometric_shift: "1 + dd * (\<Sum>k<n. dd ^ k) = (\<Sum>k<Suc n. (dd::real) ^ k)"
  by (induction n) (simp_all add: algebra_simps)

lemma matrix_power_closed:
  "matrix_power ((1, 0, hh, 0), (0, 1, 0, hh), (0, 0, dd, 0), (0, 0, 0, dd)) n =
     ((1, 0, hh * (\<Sum>k<n. dd ^ k), 0), (0, 1, 0, hh * (\<Sum>k<n. dd ^ k)),
      (0, 0, dd ^ n, 0), (0, 0, 0, dd ^ n))"
proof (induction n)
  case 0
  show ?case by (simp add: eye4_def)
next
  case (Suc n)
  have "hh + hh * (\<Sum>k<n. dd ^ k) * dd = hh * (1 + dd * (\<Sum>k<n. dd ^ k))"
    by (simp add: algebra_simps)
  then have "hh + hh * (\<Sum>k<n. dd ^ k) * dd = hh * (\<Sum>k<Suc n. dd ^ k)"
    by (simp only: geometric_shift)
  then show ?case
    by (simp add: Suc.IH vecmat4_def del: sum.lessThan_Suc)
qed

lemma calculate_optimal_v0_run:
  assumes "compute_dynamics ps = Inr (A, b)" and "1 \<le> T ps"
  shows "calculate_optimal_v0 ps target =
     (case inv2 (top_right (matrix_power A (nat (T ps)))) of
        Inl e \<Rightarrow> Inl (ValueError target_unreachable)
      | Inr Ci \<Rightarrow>
          Inr (matvec2 Ci (vsub2 target
                 (vadd2 (matvec2 (top_left (matrix_power A (nat (T ps)))) (p0 ps))
                        (take2 (forcing_sum A b (nat (T ps))))))))"
  using assms by (simp add: calculate_optimal_v0_def Let_def)

lemma singular_iff:
  assumes "compute_dynamics ps = Inr (A, b)" and "1 \<le> T ps"
  shows "calculate_optimal_v0 ps target = Inl e \<longleftrightarrow>
           det2 (top_right (matrix_power A (nat (T ps)))) = 0 \<and> e = ValueError target_unreachable"
proof (cases "det2 (top_right (matrix_power A (nat (T ps)))) = 0")
  case True
  then have "inv2 (top_right (matrix_power A (nat (T ps)))) = Inl LinAlgError"
    by (simp add: inv2_Inl)
  then have "calculate_optimal_v0 ps target = Inl (ValueError target_unreachable)"
    by (simp add: calculate_optimal_v0_run [OF assms])
  with True show ?thesis by auto
next
  case False
  from inv2_Inr [OF this] obtain Ci where "inv2 (top_right (matrix_power A (nat (T ps)))) = Inr Ci"
    by blast
  then have "\<exists>v. calculate_optimal_v0 ps target = Inr v"
    by (simp add: calculate_optimal_v0_run [OF assms])
  with False show ?thesis by auto
qed

lemma drag_free_dynamics:
  "compute_dynamics drag_free =
     Inr (((1, 0, 1 / 10, 0), (0, 1, 0, 1 / 10), (0, 0, 1, 0), (0, 0, 0, 1)),
          (0, 0, 0, - (98 / 100)))"
  by (simp add: compute_dynamics_closed drag_free_def)

lemma drag_free_solution: "calculate_optimal_v0 drag_free (5, 5) = Inr (5, 941 / 100)"
proof -
  have T1: "1 \<le> T drag_free" by (simp add: drag_free_def)
  have n: "nat (T drag_free) = 10" by (simp add: drag_free_def)
  show ?thesis
    unfolding calculate_optimal_v0_run [OF drag_free_dynamics T1] n
    by (simp add: drag_free_def forcing_sum_def eval_nat_numeral upt_conv_Cons eye4_def
        zeros4_def vecmat4_def del: upt_Suc)
qed

lemma singular_dynamics:
  "compute_dynamics singular =
     Inr (((1, 0, 1, 0), (0, 1, 0, 1), (0, 0, - 1, 0), (0, 0, 0, - 1)),
          (0, 0, 0, - (98 / 10)))"
  by (simp add: compute_dynamics_closed singular_def)



section \<open>The claims\<close>

text \<open>
  Claim C5 (builder correctness): for every parameter record with \<open>m > 0\<close> and \<open>h > 0\<close>,
  \<open>compute_dynamics\<close> returns, without failing, exactly the matrix
  \<open>A = [[I, h I], [0, (1 - h eta / m) I]]\<close> and the vector
  \<open>b = [0, h (g + (eta / m) w)]\<close>, in closed form. The result is a function of the
  record alone.
\<close>

theorem build_closed_form:
  assumes "m ps > 0" and "h ps > 0"
  shows "compute_dynamics ps =
     Inr (((1, 0, h ps, 0),
           (0, 1, 0, h ps),
           (0, 0, 1 - h ps * eta ps / m ps, 0),
           (0, 0, 0, 1 - h ps * eta ps / m ps)),
          (0, 0, h ps * (fst (g ps) + eta ps / m ps * fst (w ps)),
                 h ps * (snd (g ps) + eta ps / m ps * snd (w ps))))"
  using assms by (intro compute_dynamics_closed) simp

theorem build_closed_form_witness:
  "m drag_free > 0 \<and> h drag_free > 0 \<and>
   compute_dynamics drag_free =
     Inr (((1, 0, 1 / 10, 0), (0, 1, 0, 1 / 10), (0, 0, 1, 0), (0, 0, 0, 1)),
          (0, 0, 0, - (98 / 100)))"
  using build_closed_form [of drag_free] by (simp add: drag_free_def)

text \<open>
  Claim C7 (zeroth point): for every valid parameter record, \<open>simulate\<close> returns a
  trajectory whose first element is exactly \<open>p0\<close>.
\<close>

theorem simulate_first_point:
  assumes "valid ps"
  shows "\<exists>trajectory. simulate ps = Inr trajectory \<and> trajectory ! 0 = p0 ps"
proof -
  from assms have m: "m ps \<noteq> 0" and T0: "0 \<le> T ps" by (simp_all add: valid_def)
  from compute_dynamics_Inr [OF m] obtain A b where dyn: "compute_dynamics ps = Inr (A, b)"
    by blast
  show ?thesis
    unfolding simulate_run [OF dyn T0]
    by (simp add: take2_concatenate nth_append upt_conv_Cons del: upt_Suc)
qed

theorem simulate_first_point_witness:
  "valid unstable \<and> (\<exists>trajectory. simulate unstable = Inr trajectory \<and> trajectory ! 0 = (3, 4))"
  using simulate_first_point [of unstable] by (simp add: unstable_def valid_def)

text \<open>
  Claim C8 (trajectory length): for every valid parameter record, with step count
  \<open>T \<ge> 1\<close>, \<open>simulate\<close> returns a sequence of exactly \<open>T + 1\<close> points.
\<close>

theorem simulate_length:
  assumes "valid ps"
  shows "\<exists>trajectory. simulate ps = Inr trajectory \<and> int (length trajectory) = T ps + 1"
proof -
  from assms have m: "m ps \<noteq> 0" and T0: "0 \<le> T ps" by (simp_all add: valid_def)
  from compute_dynamics_Inr [OF m] obtain A b where dyn: "compute_dynamics ps = Inr (A, b)"
    by blast
  show ?thesis
    unfolding simulate_run [OF dyn T0] using T0 by (simp del: upt_Suc)
qed

theorem simulate_length_witness:
  "valid drag_free \<and> (\<exists>trajectory. simulate drag_free = Inr trajectory \<and> length trajectory = 11)"
  using simulate_length [of drag_free] by (simp add: drag_free_def valid_def)

text \<open>
  Claim C6 (divergence faithfulness): \<open>simulate\<close> raises for no valid parameter record,
  and whatever the drag factor is (no hypothesis bounds it), the positions it returns are
  those of the iterates of the recurrence \<open>x \<mapsto> A x + b\<close> from \<open>[p0; v0]\<close>: nothing is
  clamped and nothing is replaced.
\<close>

theorem simulate_follows_recurrence:
  assumes "valid ps" and "compute_dynamics ps = Inr (A, b)"
  shows "simulate ps =
           Inr (map (\<lambda>t. take2 ((step A b ^^ t) (concatenate (p0 ps) (v0 ps))))
                  [0 ..< nat (T ps) + 1])"
  using assms by (intro simulate_run) (simp_all add: valid_def)

text \<open>With drag factor \<open>- 2\<close> the horizontal position oscillates with growing amplitude.\<close>

theorem simulate_follows_recurrence_witness:
  "valid unstable
   \<and> compute_dynamics unstable =
       Inr (((1, 0, 1, 0), (0, 1, 0, 1), (0, 0, - 2, 0), (0, 0, 0, - 2)), (0, 0, 0, 0))
   \<and> simulate unstable = Inr [(3, 4), (4, 4), (2, 4), (6, 4)]"
proof -
  have v: "valid unstable" by (simp add: valid_def unstable_def)
  have d: "compute_dynamics unstable =
       Inr (((1, 0, 1, 0), (0, 1, 0, 1), (0, 0, - 2, 0), (0, 0, 0, - 2)), (0, 0, 0, 0))"
    by (simp add: compute_dynamics_closed unstable_def)
  have "simulate unstable = Inr [(3, 4), (4, 4), (2, 4), (6, 4)]"
    unfolding simulate_follows_recurrence [OF v d]
    by (simp add: unstable_def step_def eval_nat_numeral upt_conv_Cons del: upt_Suc)
  with v d show ?thesis by blast
qed

text \<open>
  Claim C9 (registry ordering): \<open>add_simulation\<close> appends the record at the end of the
  list and leaves the earlier entries and their order as they were; after appending
  \<open>a\<close>, \<open>b\<close>, \<open>c\<close> the list ends with them in that order (and from a new simulator it is
  exactly \<open>[a, b, c]\<close>); a record added twice is listed twice; after
  \<open>clear_simulations\<close> the list is empty.
\<close>

theorem registry_ordering:
  "simulations (add_simulation self ps) = simulations self @ [ps]
   \<and> simulations (add_simulation (add_simulation (add_simulation self a) b) c)
       = simulations self @ [a, b, c]
   \<and> simulations (add_simulation (add_simulation (add_simulation (init colors) a) b) c)
       = [a, b, c]
   \<and> simulations (add_simulation (add_simulation self ps) ps) = simulations self @ [ps, ps]
   \<and> simulations (clear_simulations self) = []"
  by (simp add: add_simulation_def clear_simulations_def init_def)

text \<open>
  Claim C2 (closed form and step-by-step run agree): for every valid parameter record,
  with \<open>F = matrix_power A T\<close> and \<open>j\<close> the sum of \<open>matrix_power A k @ b\<close> for
  \<open>k < T\<close> as \<open>calculate_optimal_v0\<close> accumulates it, \<open>F x\<^sub>0 + j\<close> is the state that the
  loop of \<open>simulate\<close> reaches after its \<open>T\<close> iterations from \<open>x\<^sub>0 = [p0; v0]\<close>, which
  is the \<open>T\<close>-fold application of \<open>x \<mapsto> A x + b\<close>.
\<close>

theorem closed_form_equals_iteration:
  assumes "valid ps" and "compute_dynamics ps = Inr (A, b)"
  shows "\<exists>trajectory.
           sim_state ps =
             Inr (vadd4 (matvec4 (matrix_power A (nat (T ps))) (concatenate (p0 ps) (v0 ps)))
                        (forcing_sum A b (nat (T ps))),
                  trajectory)
         \<and> (step A b ^^ nat (T ps)) (concatenate (p0 ps) (v0 ps)) =
             vadd4 (matvec4 (matrix_power A (nat (T ps))) (concatenate (p0 ps) (v0 ps)))
                   (forcing_sum A b (nat (T ps)))"
proof -
  from assms(1) have T0: "0 \<le> T ps" by (simp add: valid_def)
  from sim_state_run [OF assms(2) T0] show ?thesis
    by (auto simp: step_funpow)
qed

theorem closed_form_equals_iteration_witness:
  "valid unstable
   \<and> compute_dynamics unstable =
       Inr (((1, 0, 1, 0), (0, 1, 0, 1), (0, 0, - 2, 0), (0, 0, 0, - 2)), (0, 0, 0, 0))
   \<and> (\<exists>trajectory. sim_state unstable = Inr ((6, 4, - 8, 0), trajectory))"
proof -
  have v: "valid unstable" by (simp add: valid_def unstable_def)
  have d: "compute_dynamics unstable =
       Inr (((1, 0, 1, 0), (0, 1, 0, 1), (0, 0, - 2, 0), (0, 0, 0, - 2)), (0, 0, 0, 0))"
    by (simp add: compute_dynamics_closed unstable_def)
  have n: "nat (T unstable) = 3" by (simp add: unstable_def)
  have F: "matrix_power ((1, 0, 1, 0), (0, 1, 0, 1), (0, 0, - 2, 0), (0, 0, 0, - 2)) 3
             = ((1, 0, 3, 0), (0, 1, 0, 3), (0, 0, - 8, 0), (0, 0, 0, - 8))"
    by (simp add: eval_nat_numeral eye4_def vecmat4_def)
  have j: "forcing_sum ((1, 0, 1, 0), (0, 1, 0, 1), (0, 0, - 2, 0), (0, 0, 0, - 2)) (0, 0, 0, 0) 3
             = (0, 0, 0, 0)"
    by (simp add: forcing_sum_def eval_nat_numeral zeros4_def eye4_def vecmat4_def)
  from closed_form_equals_iteration [OF v d] v d show ?thesis
    unfolding n F j by (simp add: unstable_def)
qed

text \<open>
  In exact arithmetic the solved velocity is a solution: when the sensitivity matrix \<open>C\<close>,
  the top-right block of \<open>matrix_power A T\<close>, is invertible, \<open>calculate_optimal_v0\<close>
  returns a velocity, and \<open>simulate\<close> run with that velocity as \<open>v0\<close> ends on the target.
\<close>

lemma round_trip_exact:
  assumes "valid ps" and "compute_dynamics ps = Inr (A, b)"
    and "det2 (top_right (matrix_power A (nat (T ps)))) \<noteq> 0"
  shows "\<exists>v trajectory.
           calculate_optimal_v0 ps target = Inr v
         \<and> simulate (ps\<lparr>v0 := v\<rparr>) = Inr trajectory
         \<and> trajectory ! nat (T ps) = target"
proof -
  let ?n = "nat (T ps)"
  let ?F = "matrix_power A ?n"
  let ?j = "forcing_sum A b ?n"
  let ?d = "vadd2 (matvec2 (top_left ?F) (p0 ps)) (take2 ?j)"
  from assms(1) have T1: "1 \<le> T ps" by (simp add: valid_def)
  from inv2_Inr [OF assms(3)] obtain Ci where Ci: "inv2 (top_right ?F) = Inr Ci" by blast
  define v where "v = matvec2 Ci (vsub2 target ?d)"
  have solve: "calculate_optimal_v0 ps target = Inr v"
    by (simp add: calculate_optimal_v0_run [OF assms(2) T1] Ci v_def)
  have dyn': "compute_dynamics (ps\<lparr>v0 := v\<rparr>) = Inr (A, b)"
    using assms(2) by (simp add: compute_dynamics_v0)
  define trajectory where
    "trajectory = map (\<lambda>k. take2 ((step A b ^^ k) (concatenate (p0 ps) v))) [0 ..< ?n + 1]"
  have sim: "simulate (ps\<lparr>v0 := v\<rparr>) = Inr trajectory"
    using simulate_run [OF dyn'] T1 by (simp add: trajectory_def del: upt_Suc)
  have "trajectory ! ?n = take2 ((step A b ^^ ?n) (concatenate (p0 ps) v))"
    unfolding trajectory_def by (simp del: upt_Suc)
  also have "\<dots> = vadd2 (vadd2 (matvec2 (top_left ?F) (p0 ps)) (matvec2 (top_right ?F) v))
                       (take2 ?j)"
    by (simp add: step_funpow take2_vadd4 take2_matvec4)
  also have "matvec2 (top_right ?F) v = vsub2 target ?d"
    unfolding v_def by (rule inv2_matvec2 [OF Ci])
  also have "vadd2 (vadd2 (matvec2 (top_left ?F) (p0 ps)) (vsub2 target ?d)) (take2 ?j) = target"
    by (rule vadd2_vsub2_cancel)
  finally have hit: "trajectory ! ?n = target" .
  from solve sim hit show ?thesis by blast
qed

text \<open>
  In exact arithmetic, for every valid parameter record, \<open>calculate_optimal_v0\<close> raises
  its \<open>ValueError\<close> exactly when the determinant of the sensitivity matrix \<open>C\<close> is 0 and
  returns a velocity exactly when \<open>C\<close> is invertible; and a velocity that it returns,
  the zero vector included, is a solution: \<open>simulate\<close> run with it ends on the target.
\<close>

lemma singular_exact:
  assumes "valid ps" and "compute_dynamics ps = Inr (A, b)"
  shows "(calculate_optimal_v0 ps target = Inl (ValueError target_unreachable)
            \<longleftrightarrow> det2 (top_right (matrix_power A (nat (T ps)))) = 0)
       \<and> ((\<exists>v. calculate_optimal_v0 ps target = Inr v)
            \<longleftrightarrow> det2 (top_right (matrix_power A (nat (T ps)))) \<noteq> 0)
       \<and> (\<forall>v. calculate_optimal_v0 ps target = Inr v \<longrightarrow>
             (\<exists>trajectory. simulate (ps\<lparr>v0 := v\<rparr>) = Inr trajectory
                \<and> trajectory ! nat (T ps) = target))"
proof -
  from assms(1) have T1: "1 \<le> T ps" by (simp add: valid_def)
  have 1: "calculate_optimal_v0 ps target = Inl (ValueError target_unreachable)
            \<longleftrightarrow> det2 (top_right (matrix_power A (nat (T ps)))) = 0"
    by (simp add: singular_iff [OF assms(2) T1])
  have 2: "(\<exists>v. calculate_optimal_v0 ps target = Inr v)
            \<longleftrightarrow> det2 (top_right (matrix_power A (nat (T ps)))) \<noteq> 0"
    using singular_iff [OF assms(2) T1, of target]
    by (cases "calculate_optimal_v0 ps target") auto
  have 3: "\<exists>trajectory. simulate (ps\<lparr>v0 := v\<rparr>) = Inr trajectory
                \<and> trajectory ! nat (T ps) = target"
    if "calculate_optimal_v0 ps target = Inr v" for v
  proof -
    from that 2 have "det2 (top_right (matrix_power A (nat (T ps)))) \<noteq> 0" by blast
    from round_trip_exact [OF assms this, of target] that show ?thesis by auto
  qed
  from 1 2 3 show ?thesis by blast
qed




text \<open>
  In exact arithmetic, for every valid parameter record and every \<open>t\<close> with
  \<open>1 \<le> t \<le> T\<close>, let \<open>x\<close> and \<open>x'\<close> be the states that \<open>simulate\<close> reaches when it is run
  for \<open>t - 1\<close> and for \<open>t\<close> steps. The state made of \<open>trajectory[t]\<close> and the velocity
  part of \<open>x'\<close> is \<open>A\<close> applied to the state made of \<open>trajectory[t - 1]\<close> and the
  velocity part of \<open>x\<close>, plus \<open>b\<close>; and \<open>trajectory[t]\<close> is the position part of
  \<open>matrix_power A t @ x\<^sub>0 + j\<^sub>t\<close>.
\<close>

lemma recurrence_exact:
  assumes "valid ps" and "1 \<le> t" and "t \<le> T ps"
  shows "\<exists>A b trajectory x tr x' tr'.
           compute_dynamics ps = Inr (A, b)
         \<and> simulate ps = Inr trajectory
         \<and> sim_state (ps\<lparr>T := t - 1\<rparr>) = Inr (x, tr)
         \<and> sim_state (ps\<lparr>T := t\<rparr>) = Inr (x', tr')
         \<and> concatenate (trajectory ! nat t) (drop2 x') =
             vadd4 (matvec4 A (concatenate (trajectory ! nat (t - 1)) (drop2 x))) b
         \<and> trajectory ! nat t =
             take2 (vadd4 (matvec4 (matrix_power A (nat t)) (concatenate (p0 ps) (v0 ps)))
                          (forcing_sum A b (nat t)))"
proof -
  let ?start = "concatenate (p0 ps) (v0 ps)"
  from assms have m: "m ps \<noteq> 0" and T0: "0 \<le> T ps" by (simp_all add: valid_def)
  from compute_dynamics_Inr [OF m] obtain A b where dyn: "compute_dynamics ps = Inr (A, b)"
    by blast
  have sim: "simulate ps =
      Inr (map (\<lambda>k. take2 ((step A b ^^ k) ?start)) [0 ..< nat (T ps) + 1])"
    by (rule simulate_run [OF dyn T0])
  define trajectory where "trajectory = map (\<lambda>k. take2 ((step A b ^^ k) ?start)) [0 ..< nat (T ps) + 1]"
  have nth: "trajectory ! k = take2 ((step A b ^^ k) ?start)" if "k \<le> nat (T ps)" for k
    using that unfolding trajectory_def by (simp add: less_Suc_eq_le del: upt_Suc)
  have dyn1: "compute_dynamics (ps\<lparr>T := t - 1\<rparr>) = Inr (A, b)"
    and dyn2: "compute_dynamics (ps\<lparr>T := t\<rparr>) = Inr (A, b)"
    using dyn by (simp_all add: compute_dynamics_T)
  from sim_state_run [OF dyn1] assms(2) obtain tr where
    s1: "sim_state (ps\<lparr>T := t - 1\<rparr>) = Inr ((step A b ^^ nat (t - 1)) ?start, tr)"
    by auto
  from sim_state_run [OF dyn2] assms(2) obtain tr' where
    s2: "sim_state (ps\<lparr>T := t\<rparr>) = Inr ((step A b ^^ nat t) ?start, tr')"
    by auto
  let ?x = "(step A b ^^ nat (t - 1)) ?start"
  let ?x' = "(step A b ^^ nat t) ?start"
  define k where "k = nat (t - 1)"
  have "nat t = Suc k" using assms(2) by (simp add: k_def)
  then have "(step A b ^^ nat t) ?start = step A b ((step A b ^^ k) ?start)" by simp
  then have succ: "?x' = vadd4 (matvec4 A ?x) b" by (simp add: step_def k_def)
  have a: "trajectory ! nat t = take2 ?x'"
    and c: "trajectory ! nat (t - 1) = take2 ?x"
    using assms(2,3) by (simp_all add: nth)
  have 1: "concatenate (trajectory ! nat t) (drop2 ?x') =
      vadd4 (matvec4 A (concatenate (trajectory ! nat (t - 1)) (drop2 ?x))) b"
    unfolding a c concatenate_take2_drop2 by (rule succ)
  have 2: "trajectory ! nat t =
      take2 (vadd4 (matvec4 (matrix_power A (nat t)) ?start) (forcing_sum A b (nat t)))"
    unfolding a by (simp add: step_funpow)
  from dyn sim s1 s2 1 2 show ?thesis
    unfolding trajectory_def [symmetric] by blast
qed

text \<open>
  Claim C10 (drag-free solvability): for every parameter record with \<open>eta = 0\<close>,
  \<open>m > 0\<close>, \<open>h > 0\<close> and \<open>T \<ge> 1\<close>, the drag factor is 1, the sensitivity block of
  \<open>matrix_power A T\<close> is \<open>T h\<close> times the identity, which is invertible, and
  \<open>calculate_optimal_v0\<close> returns a velocity for every target.
\<close>

theorem drag_free_solvable:
  assumes "eta ps = 0" and "m ps > 0" and "h ps > 0" and "T ps \<ge> 1"
  shows "1 - h ps * eta ps / m ps = 1
       \<and> compute_dynamics ps =
           Inr (((1, 0, h ps, 0), (0, 1, 0, h ps), (0, 0, 1, 0), (0, 0, 0, 1)),
                (0, 0, h ps * fst (g ps), h ps * snd (g ps)))
       \<and> top_right (matrix_power ((1, 0, h ps, 0), (0, 1, 0, h ps), (0, 0, 1, 0), (0, 0, 0, 1))
                      (nat (T ps)))
           = smul2 (of_int (T ps) * h ps) eye2
       \<and> det2 (smul2 (of_int (T ps) * h ps) eye2) \<noteq> 0
       \<and> (\<exists>v. calculate_optimal_v0 ps target = Inr v)"
proof -
  let ?A = "((1, 0, h ps, 0), (0, 1, 0, h ps), (0, 0, 1, 0), (0, 0, 0, 1))"
  let ?C = "top_right (matrix_power ?A (nat (T ps)))"
  have 1: "1 - h ps * eta ps / m ps = 1" using assms(1) by simp
  have dyn: "compute_dynamics ps =
           Inr (?A, (0, 0, h ps * fst (g ps), h ps * snd (g ps)))"
    using assms(1,2) by (simp add: compute_dynamics_closed)
  have "real (nat (T ps)) = of_int (T ps)" using assms(4) by simp
  then have C: "?C = smul2 (of_int (T ps) * h ps) eye2"
    by (simp add: matrix_power_closed eye2_def mult.commute)
  have "of_int (T ps) * h ps \<noteq> 0" using assms(3,4) by simp
  then have det: "det2 (smul2 (of_int (T ps) * h ps) eye2) \<noteq> 0"
    by (simp add: eye2_def)
  have "det2 ?C \<noteq> 0" unfolding C by (rule det)
  from inv2_Inr [OF this] obtain Ci where "inv2 ?C = Inr Ci" by blast
  then have "\<exists>v. calculate_optimal_v0 ps target = Inr v"
    by (simp add: calculate_optimal_v0_run [OF dyn assms(4)])
  with 1 dyn C det show ?thesis by blast
qed

theorem drag_free_solvable_witness:
  "eta drag_free = 0 \<and> m drag_free > 0 \<and> h drag_free > 0 \<and> T drag_free \<ge> 1
   \<and> top_right (matrix_power ((1, 0, 1 / 10, 0), (0, 1, 0, 1 / 10), (0, 0, 1, 0), (0, 0, 0, 1)) 10)
       = ((1, 0), (0, 1))
   \<and> (\<exists>v. calculate_optimal_v0 drag_free (7, 2) = Inr v)"
  using drag_free_solvable [of drag_free "(7, 2)"]
  by (simp add: drag_free_def eye2_def)

end
